theory Spec2Isabelle
  imports Complex_Main
begin

section \<open>EcoLens: the simulation engine \<open>run_sim\<close> of \<open>ecolens.py\<close>\<close>

text \<open>
  The theory embeds \<open>run_sim\<close> and everything it calls. Python floats are read as
  real numbers, Python integers as \<open>int\<close>, \<open>len\<close> as \<open>nat\<close>. The generator
  behind \<open>random.random\<close>, \<open>random.uniform\<close> and \<open>random.shuffle\<close> lives in
  Python's standard library, outside the repository; it is a parameter of the
  model (\<open>rng_lib\<close>), and every function that draws takes the generator state and
  returns the next one, so that the order of the draws is the order of the source.
  A raise is a value \<open>Inl e\<close> of the result.
\<close>

subsection \<open>Data\<close>

text \<open>\<open>class Individual\<close>: the two attributes set by \<open>__init__\<close>.\<close>

record individual =
  energy :: real
  efficiency :: real

text \<open>The keyword parameters of \<open>run_sim\<close>, under their source names.\<close>

record config =
  days :: int
  init_prey :: int
  init_pred :: int
  init_resource :: real
  resource_regen :: real
  prey_consumption :: real
  pred_consumption :: real
  prey_repro_thresh :: real
  pred_repro_thresh :: real
  prey_mut_rate :: real
  pred_mut_rate :: real
  shock_chance :: real
  seed :: int

text \<open>
  The dictionary \<open>history\<close>: its six keys \<open>day\<close>, \<open>prey_count\<close>, \<open>pred_count\<close>,
  \<open>resource\<close>, \<open>prey_avg_eff\<close>, \<open>pred_avg_eff\<close> are the six fields, each holding
  the list the source appends to.
\<close>

record history =
  h_day :: "int list"
  h_prey_count :: "nat list"
  h_pred_count :: "nat list"
  h_resource :: "real list"
  h_prey_avg_eff :: "real list"
  h_pred_avg_eff :: "real list"

text \<open>
  The exceptions that can leave \<open>run_sim\<close>: the float division by
  \<open>prey_repro_thresh + 1\<close> or \<open>pred_repro_thresh + 1\<close> raises
  \<open>ZeroDivisionError\<close> when the divisor is zero, and \<open>np.random.seed\<close> raises
  \<open>ValueError\<close> for a seed it does not accept.
\<close>

datatype error = ZeroDivisionError | ValueError

text \<open>
  The library behind the source's calls, for a generator state of type \<open>'g\<close>:
  \<open>seed_rng\<close> is \<open>random.seed\<close> (the state it installs), \<open>random_rng\<close> is
  \<open>random.random\<close>, \<open>randbelow\<close> is the integer draw \<open>shuffle\<close> is built on, and
  \<open>np_seed_accepts\<close> says whether \<open>np.random.seed\<close> returns for a seed (numpy's
  legacy seeding accepts the integers from 0 to 2^32 - 1 and raises \<open>ValueError\<close>
  otherwise; \<open>run_sim\<close> never draws from numpy's generator).
\<close>

record 'g rng_lib =
  seed_rng :: "int \<Rightarrow> 'g"
  random_rng :: "'g \<Rightarrow> real \<times> 'g"
  randbelow :: "nat \<Rightarrow> 'g \<Rightarrow> nat \<times> 'g"
  np_seed_accepts :: "int \<Rightarrow> bool"


text \<open>The mutable locals of \<open>run_sim\<close> that live across days, and the global generator.\<close>

record 'g sim_state =
  prey :: "individual list"
  predators :: "individual list"
  resource :: real
  rng :: 'g
  history :: history

subsection \<open>Library functions built on the generator\<close>

text \<open>\<open>random.uniform(a, b)\<close> is \<open>a + (b - a) * random()\<close>.\<close>

definition uniform :: "'g rng_lib \<Rightarrow> real \<Rightarrow> real \<Rightarrow> 'g \<Rightarrow> real \<times> 'g" where
  "uniform L a b g = (let (r, g') = random_rng L g in (a + (b - a) * r, g'))"

text \<open>
  \<open>random.shuffle(x)\<close>: for \<open>i\<close> from \<open>len(x) - 1\<close> down to 1, draw
  \<open>j = randbelow(i + 1)\<close> and swap \<open>x[i]\<close> with \<open>x[j]\<close>.
\<close>

fun shuffle_loop :: "'g rng_lib \<Rightarrow> nat \<Rightarrow> 'a list \<Rightarrow> 'g \<Rightarrow> 'a list \<times> 'g" where
  "shuffle_loop L 0 xs g = (xs, g)"
| "shuffle_loop L (Suc k) xs g =
     (let (j, g') = randbelow L (Suc (Suc k)) g
      in shuffle_loop L k (xs[Suc k := xs ! j, j := xs ! Suc k]) g')"

definition shuffle :: "'g rng_lib \<Rightarrow> 'a list \<Rightarrow> 'g \<Rightarrow> 'a list \<times> 'g" where
  "shuffle L xs g = shuffle_loop L (length xs - 1) xs g"

subsection \<open>Initial populations\<close>

text \<open>
  \<open>[Individual(energy=e, efficiency=random.uniform(0.6,1.0)) for _ in range(n)]\<close>;
  \<open>range\<close> of a negative number is empty, so the caller passes \<open>nat n\<close>.
\<close>

fun spawn :: "'g rng_lib \<Rightarrow> real \<Rightarrow> nat \<Rightarrow> 'g \<Rightarrow> individual list \<times> 'g" where
  "spawn L e 0 g = ([], g)"
| "spawn L e (Suc n) g =
     (let (x, g1) = uniform L 0.6 1.0 g;
          (rest, g2) = spawn L e n g1
      in (\<lparr>energy = e, efficiency = x\<rparr> # rest, g2))"

subsection \<open>Resource allocation\<close>

definition prey_need :: "config \<Rightarrow> individual list \<Rightarrow> real" where
  "prey_need cfg ps = sum_list (map (\<lambda>p. prey_consumption cfg * (0.5 + efficiency p)) ps)"

definition available_to_prey :: "config \<Rightarrow> real \<Rightarrow> individual list \<Rightarrow> real" where
  "available_to_prey cfg res ps = min res (prey_need cfg ps)"

definition shares :: "individual list \<Rightarrow> real list" where
  "shares ps = map (\<lambda>p. 0.5 + efficiency p) ps"

text \<open>\<open>sum(shares) or 1.0\<close>.\<close>

definition total_shares :: "individual list \<Rightarrow> real" where
  "total_shares ps = (if sum_list (shares ps) = 0 then 1.0 else sum_list (shares ps))"

text \<open>The amount \<open>got\<close> handed to one prey, and the energy it turns into.\<close>

definition got :: "real \<Rightarrow> real \<Rightarrow> real \<Rightarrow> real" where
  "got avail tot share = avail * (share / tot)"

definition feed :: "real \<Rightarrow> real \<Rightarrow> individual \<times> real \<Rightarrow> individual" where
  "feed avail tot = (\<lambda>(p, share).
     p\<lparr>energy := energy p + got avail tot share * efficiency p * 0.1\<rparr>)"

definition allocate :: "real \<Rightarrow> individual list \<Rightarrow> individual list" where
  "allocate avail ps =
     (if ps = [] then ps
      else map (feed avail (total_shares ps)) (zip ps (shares ps)))"

subsection \<open>Predation\<close>

text \<open>
  The loop over the shuffled predators: it stops at the first predator that finds
  the prey list empty; a successful predator removes the prey at the front and
  gains energy. The list \<open>eaten_prey\<close> is written and never read, and is left out.
  The result is the predator list with its energies updated, the prey left, and
  the generator.
\<close>

fun predation ::
  "'g rng_lib \<Rightarrow> config \<Rightarrow> individual list \<Rightarrow> individual list \<Rightarrow> 'g
     \<Rightarrow> individual list \<times> individual list \<times> 'g" where
  "predation L cfg [] ps g = ([], ps, g)"
| "predation L cfg (pr # prs) ps g =
     (if ps = [] then (pr # prs, ps, g)
      else (let (r, g1) = random_rng L g in
            if r < 0.3 + 0.4 * efficiency pr
            then (let (prs', ps', g2) = predation L cfg prs (tl ps) g1
                  in (pr\<lparr>energy := energy pr + pred_consumption cfg * efficiency pr\<rparr> # prs',
                      ps', g2))
            else (let (prs', ps', g2) = predation L cfg prs ps g1
                  in (pr # prs', ps', g2))))"

subsection \<open>Reproduction and survival of prey\<close>

text \<open>
  First \<open>if\<close> of the loop body: the draw is made only when the energy is above the
  threshold (\<open>and\<close> short-circuits). The result is the child appended (if any),
  the parent after the reproduction cost, and the generator.
\<close>

definition prey_reproduce ::
  "'g rng_lib \<Rightarrow> config \<Rightarrow> individual \<Rightarrow> 'g \<Rightarrow> individual list \<times> individual \<times> 'g" where
  "prey_reproduce L cfg p g =
     (if energy p > prey_repro_thresh cfg
      then (let (r, g1) = random_rng L g in
            if r < 0.6
            then (let (u, g2) = uniform L (- prey_mut_rate cfg) (prey_mut_rate cfg) g1;
                      child_eff = max 0.05 (efficiency p + u)
                  in ([\<lparr>energy = 1.0, efficiency = child_eff\<rparr>],
                      p\<lparr>energy := energy p * 0.6\<rparr>, g2))
            else ([], p, g1))
      else ([], p, g))"

text \<open>
  Second \<open>if\<close>: the draw, then the division \<open>p.energy / (prey_repro_thresh + 1)\<close>,
  which raises when the divisor is zero; both only when the energy is above 0.1.
\<close>

definition prey_survive ::
  "'g rng_lib \<Rightarrow> config \<Rightarrow> individual \<Rightarrow> 'g \<Rightarrow> error + (individual list \<times> 'g)" where
  "prey_survive L cfg p g =
     (if energy p > 0.1
      then (let (r, g1) = random_rng L g in
            if prey_repro_thresh cfg + 1 = 0 then Inl ZeroDivisionError
            else if r < 0.7 + 0.2 * (energy p / (prey_repro_thresh cfg + 1))
            then Inr ([p\<lparr>energy := energy p * 0.9\<rparr>], g1)
            else Inr ([], g1))
      else Inr ([], g))"

definition prey_one ::
  "'g rng_lib \<Rightarrow> config \<Rightarrow> individual \<Rightarrow> 'g \<Rightarrow> error + (individual list \<times> 'g)" where
  "prey_one L cfg p g =
     (let (kids, p1, g1) = prey_reproduce L cfg p g
      in case prey_survive L cfg p1 g1 of
           Inl e \<Rightarrow> Inl e
         | Inr (kept, g2) \<Rightarrow> Inr (kids @ kept, g2))"

fun prey_loop ::
  "'g rng_lib \<Rightarrow> config \<Rightarrow> individual list \<Rightarrow> 'g \<Rightarrow> error + (individual list \<times> 'g)" where
  "prey_loop L cfg [] g = Inr ([], g)"
| "prey_loop L cfg (p # ps) g =
     (case prey_one L cfg p g of
        Inl e \<Rightarrow> Inl e
      | Inr (out, g1) \<Rightarrow>
          (case prey_loop L cfg ps g1 of
             Inl e \<Rightarrow> Inl e
           | Inr (rest, g2) \<Rightarrow> Inr (out @ rest, g2)))"

subsection \<open>Reproduction and survival of predators\<close>

definition pred_reproduce ::
  "'g rng_lib \<Rightarrow> config \<Rightarrow> individual \<Rightarrow> 'g \<Rightarrow> individual list \<times> individual \<times> 'g" where
  "pred_reproduce L cfg pr g =
     (if energy pr > pred_repro_thresh cfg
      then (let (r, g1) = random_rng L g in
            if r < 0.5
            then (let (u, g2) = uniform L (- pred_mut_rate cfg) (pred_mut_rate cfg) g1;
                      child_eff = max 0.05 (efficiency pr + u)
                  in ([\<lparr>energy = 2.0, efficiency = child_eff\<rparr>],
                      pr\<lparr>energy := energy pr * 0.5\<rparr>, g2))
            else ([], pr, g1))
      else ([], pr, g))"

definition pred_survive ::
  "'g rng_lib \<Rightarrow> config \<Rightarrow> individual \<Rightarrow> 'g \<Rightarrow> error + (individual list \<times> 'g)" where
  "pred_survive L cfg pr g =
     (if energy pr > 0.5
      then (let (r, g1) = random_rng L g in
            if pred_repro_thresh cfg + 1 = 0 then Inl ZeroDivisionError
            else if r < 0.6 + 0.2 * (energy pr / (pred_repro_thresh cfg + 1))
            then Inr ([pr\<lparr>energy := energy pr * 0.92\<rparr>], g1)
            else Inr ([], g1))
      else Inr ([], g))"

definition pred_one ::
  "'g rng_lib \<Rightarrow> config \<Rightarrow> individual \<Rightarrow> 'g \<Rightarrow> error + (individual list \<times> 'g)" where
  "pred_one L cfg pr g =
     (let (kids, pr1, g1) = pred_reproduce L cfg pr g
      in case pred_survive L cfg pr1 g1 of
           Inl e \<Rightarrow> Inl e
         | Inr (kept, g2) \<Rightarrow> Inr (kids @ kept, g2))"

fun pred_loop ::
  "'g rng_lib \<Rightarrow> config \<Rightarrow> individual list \<Rightarrow> 'g \<Rightarrow> error + (individual list \<times> 'g)" where
  "pred_loop L cfg [] g = Inr ([], g)"
| "pred_loop L cfg (pr # prs) g =
     (case pred_one L cfg pr g of
        Inl e \<Rightarrow> Inl e
      | Inr (out, g1) \<Rightarrow>
          (case pred_loop L cfg prs g1 of
             Inl e \<Rightarrow> Inl e
           | Inr (rest, g2) \<Rightarrow> Inr (out @ rest, g2)))"

subsection \<open>Resource dynamics\<close>

text \<open>\<open>resource = max(0.0, resource - available_to_prey) + resource_regen\<close>.\<close>

definition consume_regen :: "config \<Rightarrow> real \<Rightarrow> real \<Rightarrow> real" where
  "consume_regen cfg res avail = max 0 (res - avail) + resource_regen cfg"

text \<open>The shock: one draw for the test, a second one for the factor when it fires.\<close>

definition shock :: "'g rng_lib \<Rightarrow> config \<Rightarrow> real \<Rightarrow> 'g \<Rightarrow> real \<times> 'g" where
  "shock L cfg res g =
     (let (r, g1) = random_rng L g in
      if r < shock_chance cfg
      then (let (u, g2) = uniform L 0.3 0.7 g1 in (res * u, g2))
      else (res, g1))"

definition carrying :: "config \<Rightarrow> int \<Rightarrow> real" where
  "carrying cfg d = max 1.0 (init_resource cfg * (1 + 0.005 * sin (real_of_int d / 10.0)))"

definition damp :: "config \<Rightarrow> int \<Rightarrow> real \<Rightarrow> real" where
  "damp cfg d res = (if res > carrying cfg d then res * 0.98 else res)"

definition update_resource ::
  "'g rng_lib \<Rightarrow> config \<Rightarrow> int \<Rightarrow> real \<Rightarrow> real \<Rightarrow> 'g \<Rightarrow> real \<times> 'g" where
  "update_resource L cfg d res avail g =
     (let (res1, g1) = shock L cfg (consume_regen cfg res avail) g
      in (damp cfg d res1, g1))"

subsection \<open>One day\<close>

text \<open>
  The body of the day loop up to the point where the statistics are recorded:
  allocation, the two shuffles, predation, the two reproduction and survival
  loops, the assignment of the new lists, and the resource update.
\<close>

definition day_stages ::
  "'g rng_lib \<Rightarrow> config \<Rightarrow> int \<Rightarrow> 'g sim_state \<Rightarrow> error + 'g sim_state" where
  "day_stages L cfg d st =
     (let avail = available_to_prey cfg (resource st) (prey st);
          prey1 = allocate avail (prey st);
          (prey2, g1) = shuffle L prey1 (rng st);
          (preds2, g2) = shuffle L (predators st) g1;
          (preds3, prey3, g3) = predation L cfg preds2 prey2 g2
      in case prey_loop L cfg prey3 g3 of
           Inl e \<Rightarrow> Inl e
         | Inr (new_prey, g4) \<Rightarrow>
             (case pred_loop L cfg preds3 g4 of
                Inl e \<Rightarrow> Inl e
              | Inr (new_preds, g5) \<Rightarrow>
                  (let (res', g6) = update_resource L cfg d (resource st) avail g5
                   in Inr (st\<lparr>prey := new_prey, predators := new_preds,
                              resource := res', rng := g6\<rparr>))))"

text \<open>\<open>sum((p.efficiency for p in xs), 0.0) / (len(xs) or 1)\<close>.\<close>

definition avg_eff :: "individual list \<Rightarrow> real" where
  "avg_eff xs =
     sum_list (map efficiency xs) / (if length xs = 0 then 1 else real (length xs))"

text \<open>The six \<open>append\<close> calls.\<close>

definition record_day :: "int \<Rightarrow> 'g sim_state \<Rightarrow> 'g sim_state" where
  "record_day d st =
     st\<lparr>history :=
          \<lparr>h_day = h_day (history st) @ [d],
           h_prey_count = h_prey_count (history st) @ [length (prey st)],
           h_pred_count = h_pred_count (history st) @ [length (predators st)],
           h_resource = h_resource (history st) @ [resource st],
           h_prey_avg_eff = h_prey_avg_eff (history st) @ [avg_eff (prey st)],
           h_pred_avg_eff = h_pred_avg_eff (history st) @ [avg_eff (predators st)]\<rparr>\<rparr>"

text \<open>The safety cap: \<open>if len(xs) > n: xs = xs[:n]\<close>.\<close>

definition cap :: "nat \<Rightarrow> 'a list \<Rightarrow> 'a list" where
  "cap n xs = (if length xs > n then take n xs else xs)"

definition apply_caps :: "'g sim_state \<Rightarrow> 'g sim_state" where
  "apply_caps st = st\<lparr>prey := cap 2000 (prey st), predators := cap 500 (predators st)\<rparr>"

definition day_step ::
  "'g rng_lib \<Rightarrow> config \<Rightarrow> int \<Rightarrow> 'g sim_state \<Rightarrow> error + 'g sim_state" where
  "day_step L cfg d st =
     (case day_stages L cfg d st of
        Inl e \<Rightarrow> Inl e
      | Inr st1 \<Rightarrow> Inr (apply_caps (record_day d st1)))"

subsection \<open>The run\<close>

text \<open>\<open>for day in range(days)\<close>, over the list of the days still to run.\<close>

fun day_loop ::
  "'g rng_lib \<Rightarrow> config \<Rightarrow> int list \<Rightarrow> 'g sim_state \<Rightarrow> error + 'g sim_state" where
  "day_loop L cfg [] st = Inr st"
| "day_loop L cfg (d # ds) st =
     (case day_step L cfg d st of
        Inl e \<Rightarrow> Inl e
      | Inr st' \<Rightarrow> day_loop L cfg ds st')"

definition empty_history :: history where
  "empty_history =
     \<lparr>h_day = [], h_prey_count = [], h_pred_count = [], h_resource = [],
      h_prey_avg_eff = [], h_pred_avg_eff = []\<rparr>"

text \<open>
  The state in which the day loop is entered: the generator freshly seeded, the
  prey sampled first, then the predators.
\<close>

definition init_state :: "'g rng_lib \<Rightarrow> config \<Rightarrow> 'g sim_state" where
  "init_state L cfg =
     (let (prey0, g1) = spawn L 1.0 (nat (init_prey cfg)) (seed_rng L (seed cfg));
          (preds0, g2) = spawn L 2.0 (nat (init_pred cfg)) g1
      in \<lparr>prey = prey0, predators = preds0, resource = init_resource cfg,
          rng = g2, history = empty_history\<rparr>)"

text \<open>
  \<open>run_sim\<close>. The argument \<open>g0\<close> is the state of the process-wide generator when
  \<open>run_sim\<close> is called; \<open>random.seed(seed)\<close> replaces it. \<open>range(days)\<close> is the list
  \<open>[0..days - 1]\<close>, empty when \<open>days \<le> 0\<close>.
\<close>

definition run_sim :: "'g rng_lib \<Rightarrow> config \<Rightarrow> 'g \<Rightarrow> error + history" where
  "run_sim L cfg g0 =
     (if \<not> np_seed_accepts L (seed cfg) then Inl ValueError
      else case day_loop L cfg [0..days cfg - 1] (init_state L cfg) of
             Inl e \<Rightarrow> Inl e
           | Inr st \<Rightarrow> Inr (history st))"

subsection \<open>A concrete generator for the examples\<close>

text \<open>
  A generator whose state is a script of numbers: each draw takes the head of
  the script (\<open>random()\<close> returns it as hundredths, \<open>randbelow n\<close> reduces it
  modulo \<open>n\<close>) and an exhausted script yields 0 for ever. Seeding installs the
  script, whatever the seed; \<open>np.random.seed\<close> accepts the seeds numpy accepts.
\<close>

definition script_lib :: "nat list \<Rightarrow> nat list rng_lib" where
  "script_lib script =
     \<lparr>seed_rng = (\<lambda>s. script),
      random_rng = (\<lambda>g. case g of [] \<Rightarrow> (0, []) | n # ns \<Rightarrow> (real (n mod 100) / 100, ns)),
      randbelow = (\<lambda>k g. case g of [] \<Rightarrow> (0, []) | n # ns \<Rightarrow> (n mod k, ns)),
      np_seed_accepts = (\<lambda>s. 0 \<le> s \<and> s < 2 ^ 32)\<rparr>"

text \<open>
  The default arguments of \<open>run_sim\<close>; and the default rates with two prey, one
  predator and no initial resource, for two days.
\<close>

definition default_config :: config where
  "default_config =
     \<lparr>days = 200, init_prey = 80, init_pred = 15, init_resource = 300.0,
      resource_regen = 8.0, prey_consumption = 1.0, pred_consumption = 2.0,
      prey_repro_thresh = 2.0, pred_repro_thresh = 5.0, prey_mut_rate = 0.05,
      pred_mut_rate = 0.03, shock_chance = 0.02, seed = 42\<rparr>"

definition two_day_config :: config where
  "two_day_config =
     default_config\<lparr>days := 2, init_prey := 2, init_pred := 1, init_resource := 0\<rparr>"










subsection \<open>Two generators that deliver the same draws\<close>

text \<open>
  \<open>same_draws L1 L2 R\<close>: whenever a state of the first generator and a state of
  the second are related by \<open>R\<close>, \<open>random()\<close> returns the same number on both,
  \<open>randbelow n\<close> returns the same number on both, and the states they leave are
  related again. Two simulation states are the same up to \<open>R\<close> when they agree
  on everything but the generator, and their generators are related.
\<close>

definition same_draws :: "'g rng_lib \<Rightarrow> 'h rng_lib \<Rightarrow> ('g \<Rightarrow> 'h \<Rightarrow> bool) \<Rightarrow> bool" where
  "same_draws L1 L2 R \<longleftrightarrow>
     (\<forall>g h. R g h \<longrightarrow>
        fst (random_rng L1 g) = fst (random_rng L2 h)
        \<and> R (snd (random_rng L1 g)) (snd (random_rng L2 h)))
     \<and> (\<forall>n g h. R g h \<longrightarrow>
        fst (randbelow L1 n g) = fst (randbelow L2 n h)
        \<and> R (snd (randbelow L1 n g)) (snd (randbelow L2 n h)))"

definition same_state :: "('g \<Rightarrow> 'h \<Rightarrow> bool) \<Rightarrow> 'g sim_state \<Rightarrow> 'h sim_state \<Rightarrow> bool" where
  "same_state R s t \<longleftrightarrow>
     prey s = prey t \<and> predators s = predators t \<and> resource s = resource t
     \<and> history s = history t \<and> R (rng s) (rng t)"

text \<open>
  A second generator for the examples. It delivers the numbers of the same
  script, but its state is the count of the draws made so far.
\<close>

definition indexed_lib :: "nat list \<Rightarrow> nat rng_lib" where
  "indexed_lib script =
     \<lparr>seed_rng = (\<lambda>s. 0),
      random_rng = (\<lambda>i. (if i < length script then real (script ! i mod 100) / 100 else 0, Suc i)),
      randbelow = (\<lambda>k i. (if i < length script then script ! i mod k else 0, Suc i)),
      np_seed_accepts = (\<lambda>s. 0 \<le> s \<and> s < 2 ^ 32)\<rparr>"

section \<open>Basic facts\<close>

subsection \<open>The scripted generator\<close>

lemma script_lib_simps:
  "seed_rng (script_lib s) x = s"
  "random_rng (script_lib s) [] = (0, [])"
  "random_rng (script_lib s) (n # ns) = (real (n mod 100) / 100, ns)"
  "randbelow (script_lib s) k [] = (0, [])"
  "randbelow (script_lib s) k (n # ns) = (n mod k, ns)"
  "np_seed_accepts (script_lib s) x = (0 \<le> x \<and> x < 2 ^ 32)"
  by (simp_all add: script_lib_def)


lemma spawn_numeral: "spawn L e (numeral k) g = spawn L e (Suc (pred_numeral k)) g"
  by (simp add: numeral_eq_Suc)

text \<open>The equations that unfold a run on a concrete input.\<close>

lemmas run_defs =
  run_sim_def init_state_def day_step_def day_stages_def uniform_def shuffle_def
  available_to_prey_def prey_need_def allocate_def total_shares_def shares_def feed_def
  got_def prey_reproduce_def prey_survive_def prey_one_def pred_reproduce_def
  pred_survive_def pred_one_def consume_regen_def shock_def carrying_def damp_def
  update_resource_def avg_eff_def record_day_def cap_def apply_caps_def
  empty_history_def Let_def upto_rec1 script_lib_simps spawn_numeral

subsection \<open>How a day changes the history\<close>

lemma history_init_state: "history (init_state L cfg) = empty_history"
  by (simp add: init_state_def split: prod.splits)

lemma day_stages_history: "day_stages L cfg d st = Inr st1 \<Longrightarrow> history st1 = history st"
  by (auto simp: day_stages_def Let_def split: prod.splits sum.splits)

lemma day_step_Inr:
  "day_step L cfg d st = Inr st' \<longleftrightarrow>
     (\<exists>st1. day_stages L cfg d st = Inr st1 \<and> st' = apply_caps (record_day d st1))"
  by (auto simp: day_step_def split: sum.splits)

lemma history_apply_caps: "history (apply_caps st) = history st"
  by (simp add: apply_caps_def)

lemma day_step_history:
  assumes "day_step L cfg d st = Inr st'"
  shows "h_day (history st') = h_day (history st) @ [d]"
    and "length (h_prey_count (history st')) = Suc (length (h_prey_count (history st)))"
    and "length (h_pred_count (history st')) = Suc (length (h_pred_count (history st)))"
    and "length (h_resource (history st')) = Suc (length (h_resource (history st)))"
    and "length (h_prey_avg_eff (history st')) = Suc (length (h_prey_avg_eff (history st)))"
    and "length (h_pred_avg_eff (history st')) = Suc (length (h_pred_avg_eff (history st)))"
proof -
  from assms obtain st1 where s1: "day_stages L cfg d st = Inr st1"
    and st': "st' = apply_caps (record_day d st1)"
    by (auto simp: day_step_Inr)
  have h: "history st1 = history st" by (rule day_stages_history [OF s1])
  show "h_day (history st') = h_day (history st) @ [d]"
    and "length (h_prey_count (history st')) = Suc (length (h_prey_count (history st)))"
    and "length (h_pred_count (history st')) = Suc (length (h_pred_count (history st)))"
    and "length (h_resource (history st')) = Suc (length (h_resource (history st)))"
    and "length (h_prey_avg_eff (history st')) = Suc (length (h_prey_avg_eff (history st)))"
    and "length (h_pred_avg_eff (history st')) = Suc (length (h_pred_avg_eff (history st)))"
    by (simp_all add: st' history_apply_caps record_day_def h)
qed

lemma day_loop_history:
  assumes "day_loop L cfg ds st = Inr st'"
  shows "h_day (history st') = h_day (history st) @ ds
       \<and> length (h_prey_count (history st')) = length (h_prey_count (history st)) + length ds
       \<and> length (h_pred_count (history st')) = length (h_pred_count (history st)) + length ds
       \<and> length (h_resource (history st')) = length (h_resource (history st)) + length ds
       \<and> length (h_prey_avg_eff (history st')) = length (h_prey_avg_eff (history st)) + length ds
       \<and> length (h_pred_avg_eff (history st')) = length (h_pred_avg_eff (history st)) + length ds"
  using assms
proof (induction ds arbitrary: st)
  case Nil
  then show ?case by simp
next
  case (Cons d ds)
  from Cons.prems obtain st1 where a: "day_step L cfg d st = Inr st1"
    and b: "day_loop L cfg ds st1 = Inr st'"
    by (auto split: sum.splits)
  show ?case
    using Cons.IH [OF b] day_step_history [OF a] by simp
qed

lemma run_sim_Inr:
  "run_sim L cfg g = Inr h \<longleftrightarrow>
     np_seed_accepts L (seed cfg) \<and>
     (\<exists>st. day_loop L cfg [0..days cfg - 1] (init_state L cfg) = Inr st \<and> h = history st)"
  by (auto simp: run_sim_def split: sum.splits)

text \<open>A two-day run with two prey and one predator, evaluated.\<close>

lemma two_day_run:
  "run_sim (script_lib [50, 99, 10, 1, 0, 0, 90, 20, 30, 70, 5]) two_day_config [] =
     Inr \<lparr>h_day = [0, 1], h_prey_count = [1, 1], h_pred_count = [0, 0],
          h_resource = [196 / 25, 87857 / 6250],
          h_prey_avg_eff = [249 / 250, 249 / 250], h_pred_avg_eff = [0, 0]\<rparr>"
  by (simp add: run_defs two_day_config_def default_config_def)


subsection \<open>The caps\<close>







subsection \<open>A day with 501 identical predators and an exhausted script\<close>













subsection \<open>When the loops return\<close>










subsection \<open>Days without prey\<close>










subsection \<open>The resource pool\<close>









subsection \<open>Bounds on the efficiencies\<close>


































subsection \<open>Allocation\<close>









subsection \<open>Runs over generators that deliver the same draws\<close>

lemma random_rel:
  assumes "same_draws L1 L2 R" and "R g h"
  obtains r g' h' where "random_rng L1 g = (r, g')" and "random_rng L2 h = (r, h')" and "R g' h'"
proof -
  from assms have "fst (random_rng L1 g) = fst (random_rng L2 h)"
    and "R (snd (random_rng L1 g)) (snd (random_rng L2 h))"
    by (simp_all add: same_draws_def)
  then show ?thesis
    using that [of "fst (random_rng L1 g)" "snd (random_rng L1 g)" "snd (random_rng L2 h)"]
    by (simp add: prod_eq_iff)
qed

lemma randbelow_rel:
  assumes "same_draws L1 L2 R" and "R g h"
  obtains j g' h' where "randbelow L1 n g = (j, g')" and "randbelow L2 n h = (j, h')"
    and "R g' h'"
proof -
  from assms have "fst (randbelow L1 n g) = fst (randbelow L2 n h)"
    and "R (snd (randbelow L1 n g)) (snd (randbelow L2 n h))"
    by (simp_all add: same_draws_def)
  then show ?thesis
    using that [of "fst (randbelow L1 n g)" "snd (randbelow L1 n g)" "snd (randbelow L2 n h)"]
    by (simp add: prod_eq_iff)
qed

lemma uniform_rel:
  assumes "same_draws L1 L2 R" and "R g h"
  obtains u g' h' where "uniform L1 a b g = (u, g')" and "uniform L2 a b h = (u, h')"
    and "R g' h'"
proof -
  from random_rel [OF assms] obtain r g' h' where
    "random_rng L1 g = (r, g')" "random_rng L2 h = (r, h')" "R g' h'" .
  then show ?thesis using that [of "a + (b - a) * r" g' h'] by (simp add: uniform_def)
qed

lemma shuffle_loop_rel:
  assumes "same_draws L1 L2 R"
  shows "R g h \<Longrightarrow>
     \<exists>ys g' h'. shuffle_loop L1 k xs g = (ys, g') \<and> shuffle_loop L2 k xs h = (ys, h') \<and> R g' h'"
proof (induction k arbitrary: xs g h)
  case 0
  then show ?case by simp
next
  case (Suc k)
  from randbelow_rel [OF assms Suc.prems, of "Suc (Suc k)"] obtain j g1 h1 where
    a: "randbelow L1 (Suc (Suc k)) g = (j, g1)" "randbelow L2 (Suc (Suc k)) h = (j, h1)"
    and r: "R g1 h1" .
  from Suc.IH [OF r, of "xs[Suc k := xs ! j, j := xs ! Suc k]"] a show ?case by simp
qed

lemma shuffle_rel:
  assumes "same_draws L1 L2 R" and "R g h"
  obtains ys g' h' where "shuffle L1 xs g = (ys, g')" and "shuffle L2 xs h = (ys, h')"
    and "R g' h'"
  using shuffle_loop_rel [OF assms, of "length xs - 1" xs] by (auto simp: shuffle_def)

lemma spawn_rel:
  assumes "same_draws L1 L2 R"
  shows "R g h \<Longrightarrow>
     \<exists>xs g' h'. spawn L1 e n g = (xs, g') \<and> spawn L2 e n h = (xs, h') \<and> R g' h'"
proof (induction n arbitrary: g h)
  case 0
  then show ?case by simp
next
  case (Suc n)
  from uniform_rel [OF assms Suc.prems, of "0.6" "1.0"] obtain x g1 h1 where
    a: "uniform L1 0.6 1.0 g = (x, g1)" "uniform L2 0.6 1.0 h = (x, h1)" and r: "R g1 h1" .
  from Suc.IH [OF r] obtain rest g2 h2 where
    b: "spawn L1 e n g1 = (rest, g2)" "spawn L2 e n h1 = (rest, h2)" and r2: "R g2 h2" by auto
  from a b r2 show ?case by simp
qed

lemma predation_rel:
  assumes "same_draws L1 L2 R"
  shows "R g h \<Longrightarrow>
     \<exists>prs' ps' g' h'. predation L1 cfg prs ps g = (prs', ps', g')
        \<and> predation L2 cfg prs ps h = (prs', ps', h') \<and> R g' h'"
proof (induction prs arbitrary: ps g h)
  case Nil
  then show ?case by simp
next
  case (Cons pr prs)
  show ?case
  proof (cases "ps = []")
    case True
    with Cons.prems show ?thesis by simp
  next
    case False
    from random_rel [OF assms Cons.prems] obtain r g1 h1 where
      a: "random_rng L1 g = (r, g1)" "random_rng L2 h = (r, h1)" and r1: "R g1 h1" .
    show ?thesis
    proof (cases "r < 0.3 + 0.4 * efficiency pr")
      case True
      from Cons.IH [OF r1, of "tl ps"] obtain prs2 ps2 g2 h2 where
        "predation L1 cfg prs (tl ps) g1 = (prs2, ps2, g2)"
        "predation L2 cfg prs (tl ps) h1 = (prs2, ps2, h2)" "R g2 h2" by auto
      with False a True show ?thesis by simp
    next
      case nt: False
      from Cons.IH [OF r1, of ps] obtain prs2 ps2 g2 h2 where
        "predation L1 cfg prs ps g1 = (prs2, ps2, g2)"
        "predation L2 cfg prs ps h1 = (prs2, ps2, h2)" "R g2 h2" by auto
      with False a nt show ?thesis by simp
    qed
  qed
qed

lemma prey_reproduce_rel:
  assumes "same_draws L1 L2 R" and "R g h"
  obtains kids p1 g' h' where "prey_reproduce L1 cfg p g = (kids, p1, g')"
    and "prey_reproduce L2 cfg p h = (kids, p1, h')" and "R g' h'"
proof (cases "energy p > prey_repro_thresh cfg")
  case False
  with assms(2) that [of "[]" p g h] show ?thesis by (simp add: prey_reproduce_def)
next
  case True
  from random_rel [OF assms] obtain r g1 h1 where
    a: "random_rng L1 g = (r, g1)" "random_rng L2 h = (r, h1)" and r1: "R g1 h1" .
  show ?thesis
  proof (cases "r < 0.6")
    case False
    with True a r1 that [of "[]" p g1 h1] show ?thesis by (simp add: prey_reproduce_def)
  next
    case rt: True
    from uniform_rel [OF assms(1) r1, of "- prey_mut_rate cfg" "prey_mut_rate cfg"]
    obtain u g2 h2 where
      b: "uniform L1 (- prey_mut_rate cfg) (prey_mut_rate cfg) g1 = (u, g2)"
         "uniform L2 (- prey_mut_rate cfg) (prey_mut_rate cfg) h1 = (u, h2)"
      and r2: "R g2 h2" .
    from True a rt b r2
      that [of "[\<lparr>energy = 1.0, efficiency = max 0.05 (efficiency p + u)\<rparr>]"
               "p\<lparr>energy := energy p * 0.6\<rparr>" g2 h2]
    show ?thesis by (simp add: prey_reproduce_def)
  qed
qed

lemma prey_survive_rel:
  assumes "same_draws L1 L2 R" and "R g h"
  shows "rel_sum (=) (rel_prod (=) R) (prey_survive L1 cfg p g) (prey_survive L2 cfg p h)"
proof (cases "energy p > 0.1")
  case False
  with assms(2) show ?thesis by (simp add: prey_survive_def)
next
  case True
  from random_rel [OF assms] obtain r g1 h1 where
    a: "random_rng L1 g = (r, g1)" "random_rng L2 h = (r, h1)" and r1: "R g1 h1" .
  with True show ?thesis by (simp add: prey_survive_def)
qed

lemma prey_one_rel:
  assumes "same_draws L1 L2 R" and "R g h"
  shows "rel_sum (=) (rel_prod (=) R) (prey_one L1 cfg p g) (prey_one L2 cfg p h)"
proof -
  from prey_reproduce_rel [OF assms, of cfg p] obtain kids p1 g1 h1 where
    a: "prey_reproduce L1 cfg p g = (kids, p1, g1)" "prey_reproduce L2 cfg p h = (kids, p1, h1)"
    and r1: "R g1 h1" .
  from prey_survive_rel [OF assms(1) r1, of cfg p1] show ?thesis
    by (auto simp: prey_one_def a split: sum.splits elim: rel_sum.cases)
qed

lemma prey_loop_rel:
  assumes "same_draws L1 L2 R"
  shows "R g h \<Longrightarrow>
     rel_sum (=) (rel_prod (=) R) (prey_loop L1 cfg ps g) (prey_loop L2 cfg ps h)"
proof (induction ps arbitrary: g h)
  case Nil
  then show ?case by simp
next
  case (Cons p ps)
  have one: "rel_sum (=) (rel_prod (=) R) (prey_one L1 cfg p g) (prey_one L2 cfg p h)"
    by (rule prey_one_rel [OF assms Cons.prems])
  show ?case
  proof (cases "prey_one L1 cfg p g")
    case (Inl e)
    with one show ?thesis by (cases "prey_one L2 cfg p h") simp_all
  next
    case (Inr x)
    obtain out g1 where x: "x = (out, g1)" by (cases x)
    from one Inr x obtain h1 where y: "prey_one L2 cfg p h = Inr (out, h1)" and r1: "R g1 h1"
      by (cases "prey_one L2 cfg p h") auto
    from Cons.IH [OF r1] show ?thesis
      by (cases "prey_loop L1 cfg ps g1"; cases "prey_loop L2 cfg ps h1")
        (auto simp: Inr x y)
  qed
qed

lemma pred_reproduce_rel:
  assumes "same_draws L1 L2 R" and "R g h"
  obtains kids p1 g' h' where "pred_reproduce L1 cfg p g = (kids, p1, g')"
    and "pred_reproduce L2 cfg p h = (kids, p1, h')" and "R g' h'"
proof (cases "energy p > pred_repro_thresh cfg")
  case False
  with assms(2) that [of "[]" p g h] show ?thesis by (simp add: pred_reproduce_def)
next
  case True
  from random_rel [OF assms] obtain r g1 h1 where
    a: "random_rng L1 g = (r, g1)" "random_rng L2 h = (r, h1)" and r1: "R g1 h1" .
  show ?thesis
  proof (cases "r < 0.5")
    case False
    with True a r1 that [of "[]" p g1 h1] show ?thesis by (simp add: pred_reproduce_def)
  next
    case rt: True
    from uniform_rel [OF assms(1) r1, of "- pred_mut_rate cfg" "pred_mut_rate cfg"]
    obtain u g2 h2 where
      b: "uniform L1 (- pred_mut_rate cfg) (pred_mut_rate cfg) g1 = (u, g2)"
         "uniform L2 (- pred_mut_rate cfg) (pred_mut_rate cfg) h1 = (u, h2)"
      and r2: "R g2 h2" .
    from True a rt b r2
      that [of "[\<lparr>energy = 2.0, efficiency = max 0.05 (efficiency p + u)\<rparr>]"
               "p\<lparr>energy := energy p * 0.5\<rparr>" g2 h2]
    show ?thesis by (simp add: pred_reproduce_def)
  qed
qed

lemma pred_survive_rel:
  assumes "same_draws L1 L2 R" and "R g h"
  shows "rel_sum (=) (rel_prod (=) R) (pred_survive L1 cfg p g) (pred_survive L2 cfg p h)"
proof (cases "energy p > 0.5")
  case False
  with assms(2) show ?thesis by (simp add: pred_survive_def)
next
  case True
  from random_rel [OF assms] obtain r g1 h1 where
    a: "random_rng L1 g = (r, g1)" "random_rng L2 h = (r, h1)" and r1: "R g1 h1" .
  with True show ?thesis by (simp add: pred_survive_def)
qed

lemma pred_one_rel:
  assumes "same_draws L1 L2 R" and "R g h"
  shows "rel_sum (=) (rel_prod (=) R) (pred_one L1 cfg p g) (pred_one L2 cfg p h)"
proof -
  from pred_reproduce_rel [OF assms, of cfg p] obtain kids p1 g1 h1 where
    a: "pred_reproduce L1 cfg p g = (kids, p1, g1)" "pred_reproduce L2 cfg p h = (kids, p1, h1)"
    and r1: "R g1 h1" .
  from pred_survive_rel [OF assms(1) r1, of cfg p1] show ?thesis
    by (auto simp: pred_one_def a split: sum.splits elim: rel_sum.cases)
qed

lemma pred_loop_rel:
  assumes "same_draws L1 L2 R"
  shows "R g h \<Longrightarrow>
     rel_sum (=) (rel_prod (=) R) (pred_loop L1 cfg ps g) (pred_loop L2 cfg ps h)"
proof (induction ps arbitrary: g h)
  case Nil
  then show ?case by simp
next
  case (Cons p ps)
  have one: "rel_sum (=) (rel_prod (=) R) (pred_one L1 cfg p g) (pred_one L2 cfg p h)"
    by (rule pred_one_rel [OF assms Cons.prems])
  show ?case
  proof (cases "pred_one L1 cfg p g")
    case (Inl e)
    with one show ?thesis by (cases "pred_one L2 cfg p h") simp_all
  next
    case (Inr x)
    obtain out g1 where x: "x = (out, g1)" by (cases x)
    from one Inr x obtain h1 where y: "pred_one L2 cfg p h = Inr (out, h1)" and r1: "R g1 h1"
      by (cases "pred_one L2 cfg p h") auto
    from Cons.IH [OF r1] show ?thesis
      by (cases "pred_loop L1 cfg ps g1"; cases "pred_loop L2 cfg ps h1")
        (auto simp: Inr x y)
  qed
qed

lemma shock_rel:
  assumes "same_draws L1 L2 R" and "R g h"
  obtains x g' h' where "shock L1 cfg res g = (x, g')" and "shock L2 cfg res h = (x, h')"
    and "R g' h'"
proof -
  from random_rel [OF assms] obtain r g1 h1 where
    a: "random_rng L1 g = (r, g1)" "random_rng L2 h = (r, h1)" and r1: "R g1 h1" .
  show ?thesis
  proof (cases "r < shock_chance cfg")
    case False
    with a r1 that [of res g1 h1] show ?thesis by (simp add: shock_def)
  next
    case True
    from uniform_rel [OF assms(1) r1, of "0.3" "0.7"] obtain u g2 h2 where
      b: "uniform L1 0.3 0.7 g1 = (u, g2)" "uniform L2 0.3 0.7 h1 = (u, h2)"
      and r2: "R g2 h2" .
    from True a b r2 that [of "res * u" g2 h2] show ?thesis by (simp add: shock_def)
  qed
qed

lemma update_resource_rel:
  assumes "same_draws L1 L2 R" and "R g h"
  obtains x g' h' where "update_resource L1 cfg d res a g = (x, g')"
    and "update_resource L2 cfg d res a h = (x, h')" and "R g' h'"
proof -
  from shock_rel [OF assms, of cfg "consume_regen cfg res a"] obtain y g1 h1 where
    "shock L1 cfg (consume_regen cfg res a) g = (y, g1)"
    "shock L2 cfg (consume_regen cfg res a) h = (y, h1)" "R g1 h1" .
  with that [of "damp cfg d y" g1 h1] show ?thesis by (simp add: update_resource_def)
qed

lemma day_stages_rel:
  assumes "same_draws L1 L2 R" and "same_state R s t"
  shows "rel_sum (=) (same_state R) (day_stages L1 cfg d s) (day_stages L2 cfg d t)"
proof -
  from assms(2) have eq: "prey t = prey s" "predators t = predators s" "resource t = resource s"
    "history t = history s" and r0: "R (rng s) (rng t)"
    by (simp_all add: same_state_def)
  let ?a = "available_to_prey cfg (resource s) (prey s)"
  from shuffle_rel [OF assms(1) r0, of "allocate ?a (prey s)"] obtain prey2 g1 h1 where
    a: "shuffle L1 (allocate ?a (prey s)) (rng s) = (prey2, g1)"
       "shuffle L2 (allocate ?a (prey s)) (rng t) = (prey2, h1)" and r1: "R g1 h1" .
  from shuffle_rel [OF assms(1) r1, of "predators s"] obtain preds2 g2 h2 where
    b: "shuffle L1 (predators s) g1 = (preds2, g2)"
       "shuffle L2 (predators s) h1 = (preds2, h2)" and r2: "R g2 h2" .
  from predation_rel [OF assms(1) r2, of cfg preds2 prey2] obtain preds3 prey3 g3 h3 where
    c: "predation L1 cfg preds2 prey2 g2 = (preds3, prey3, g3)"
       "predation L2 cfg preds2 prey2 h2 = (preds3, prey3, h3)" and r3: "R g3 h3" by auto
  have pl: "rel_sum (=) (rel_prod (=) R) (prey_loop L1 cfg prey3 g3) (prey_loop L2 cfg prey3 h3)"
    by (rule prey_loop_rel [OF assms(1) r3])
  show ?thesis
  proof (cases "prey_loop L1 cfg prey3 g3")
    case (Inl e)
    with pl have "prey_loop L2 cfg prey3 h3 = Inl e"
      by (cases "prey_loop L2 cfg prey3 h3") simp_all
    with Inl show ?thesis by (simp add: day_stages_def eq a b c)
  next
    case (Inr x)
    obtain new_prey g4 where x: "x = (new_prey, g4)" by (cases x)
    from pl Inr x obtain h4 where d: "prey_loop L2 cfg prey3 h3 = Inr (new_prey, h4)"
      and r4: "R g4 h4"
      by (cases "prey_loop L2 cfg prey3 h3") auto
    have ql: "rel_sum (=) (rel_prod (=) R)
                (pred_loop L1 cfg preds3 g4) (pred_loop L2 cfg preds3 h4)"
      by (rule pred_loop_rel [OF assms(1) r4])
    show ?thesis
    proof (cases "pred_loop L1 cfg preds3 g4")
      case (Inl e)
      with ql have "pred_loop L2 cfg preds3 h4 = Inl e"
        by (cases "pred_loop L2 cfg preds3 h4") simp_all
      with Inl Inr x d show ?thesis by (simp add: day_stages_def eq a b c)
    next
      case qr: (Inr y)
      obtain new_preds g5 where y: "y = (new_preds, g5)" by (cases y)
      from ql qr y obtain h5 where e: "pred_loop L2 cfg preds3 h4 = Inr (new_preds, h5)"
        and r5: "R g5 h5"
        by (cases "pred_loop L2 cfg preds3 h4") auto
      from update_resource_rel [OF assms(1) r5, of cfg d "resource s" ?a] obtain res' g6 h6 where
        f: "update_resource L1 cfg d (resource s) ?a g5 = (res', g6)"
           "update_resource L2 cfg d (resource s) ?a h5 = (res', h6)" and r6: "R g6 h6" .
      from Inr x d qr y e f r6 show ?thesis
        by (simp add: day_stages_def eq a b c same_state_def)
    qed
  qed
qed

lemma day_step_rel:
  assumes "same_draws L1 L2 R" and "same_state R s t"
  shows "rel_sum (=) (same_state R) (day_step L1 cfg d s) (day_step L2 cfg d t)"
  using day_stages_rel [OF assms, of cfg d]
  by (cases "day_stages L1 cfg d s"; cases "day_stages L2 cfg d t")
    (auto simp: day_step_def same_state_def apply_caps_def record_day_def)

lemma day_loop_rel:
  assumes "same_draws L1 L2 R"
  shows "same_state R s t \<Longrightarrow>
     rel_sum (=) (same_state R) (day_loop L1 cfg ds s) (day_loop L2 cfg ds t)"
proof (induction ds arbitrary: s t)
  case Nil
  then show ?case by simp
next
  case (Cons d ds)
  from day_step_rel [OF assms Cons.prems, of cfg d] show ?case
    by (cases "day_step L1 cfg d s"; cases "day_step L2 cfg d t") (auto intro: Cons.IH)
qed

lemma init_state_rel:
  assumes "same_draws L1 L2 R" and "R (seed_rng L1 (seed cfg)) (seed_rng L2 (seed cfg))"
  shows "same_state R (init_state L1 cfg) (init_state L2 cfg)"
proof -
  from spawn_rel [OF assms, of 1 "nat (init_prey cfg)"] obtain prey0 g1 h1 where
    a: "spawn L1 1 (nat (init_prey cfg)) (seed_rng L1 (seed cfg)) = (prey0, g1)"
       "spawn L2 1 (nat (init_prey cfg)) (seed_rng L2 (seed cfg)) = (prey0, h1)"
    and r1: "R g1 h1" by auto
  from spawn_rel [OF assms(1) r1, of 2 "nat (init_pred cfg)"] obtain preds0 g2 h2 where
    b: "spawn L1 2 (nat (init_pred cfg)) g1 = (preds0, g2)"
       "spawn L2 2 (nat (init_pred cfg)) h1 = (preds0, h2)"
    and r2: "R g2 h2" by auto
  from a b r2 show ?thesis by (simp add: init_state_def same_state_def)
qed

lemma same_draws_refl: "same_draws L L (=)"
  by (simp add: same_draws_def)

lemma indexed_lib_simps:
  "seed_rng (indexed_lib s) x = 0"
  "random_rng (indexed_lib s) i =
     (if i < length s then real (s ! i mod 100) / 100 else 0, Suc i)"
  "randbelow (indexed_lib s) k i = (if i < length s then s ! i mod k else 0, Suc i)"
  "np_seed_accepts (indexed_lib s) x = (0 \<le> x \<and> x < 2 ^ 32)"
  by (simp_all add: indexed_lib_def)

lemma script_indexed_same_draws:
  "same_draws (script_lib s) (indexed_lib s) (\<lambda>g i. g = drop i s)"
  unfolding same_draws_def
proof (intro conjI allI impI)
  fix g :: "nat list" and i :: nat
  assume g: "g = drop i s"
  show "fst (random_rng (script_lib s) g) = fst (random_rng (indexed_lib s) i)"
    by (cases "i < length s")
      (simp_all add: g script_lib_simps indexed_lib_simps Cons_nth_drop_Suc [symmetric])
  show "snd (random_rng (script_lib s) g) = drop (snd (random_rng (indexed_lib s) i)) s"
    by (cases "i < length s")
      (simp_all add: g script_lib_simps indexed_lib_simps Cons_nth_drop_Suc [symmetric])
next
  fix n :: nat and g :: "nat list" and i :: nat
  assume g: "g = drop i s"
  show "fst (randbelow (script_lib s) n g) = fst (randbelow (indexed_lib s) n i)"
    by (cases "i < length s")
      (simp_all add: g script_lib_simps indexed_lib_simps Cons_nth_drop_Suc [symmetric])
  show "snd (randbelow (script_lib s) n g) = drop (snd (randbelow (indexed_lib s) n i)) s"
    by (cases "i < length s")
      (simp_all add: g script_lib_simps indexed_lib_simps Cons_nth_drop_Suc [symmetric])
qed

lemma run_sim_same_draws:
  assumes "same_draws L1 L2 R"
    and "R (seed_rng L1 (seed cfg)) (seed_rng L2 (seed cfg))"
    and "np_seed_accepts L1 (seed cfg) = np_seed_accepts L2 (seed cfg)"
  shows "run_sim L1 cfg g1 = run_sim L2 cfg g2"
proof -
  have "rel_sum (=) (same_state R)
          (day_loop L1 cfg [0..days cfg - 1] (init_state L1 cfg))
          (day_loop L2 cfg [0..days cfg - 1] (init_state L2 cfg))"
    by (rule day_loop_rel [OF assms(1) init_state_rel [OF assms(1,2)]])
  then show ?thesis
    by (cases "day_loop L1 cfg [0..days cfg - 1] (init_state L1 cfg)";
        cases "day_loop L2 cfg [0..days cfg - 1] (init_state L2 cfg)")
      (auto simp: run_sim_def assms(3) same_state_def)
qed

section \<open>Determinism\<close>

text \<open>
  Claim C1. Two invocations of \<open>run_sim\<close> with the same parameter values and the
  same seed return the same outcome: the same history, all six sequences equal
  element for element (or the same exception), whatever states \<open>g1\<close> and \<open>g2\<close>
  the process-wide generator was in when the two invocations began. The reason
  is that the run draws from one stream only, the one installed by
  \<open>random.seed(seed)\<close> at its start: the outcome is a function of the
  configuration and of the draws that stream delivers. So even a run on another
  generator \<open>L2\<close> has the same outcome, as soon as the two generators, once
  seeded with the configuration's seed, deliver the same draws.
\<close>

theorem run_sim_deterministic:
  "run_sim L cfg g1 = run_sim L cfg g2
   \<and> (same_draws L L2 R \<and> R (seed_rng L (seed cfg)) (seed_rng L2 (seed cfg))
        \<and> np_seed_accepts L (seed cfg) = np_seed_accepts L2 (seed cfg)
      \<longrightarrow> run_sim L cfg g1 = run_sim L2 cfg g3)"
proof (intro conjI impI)
  show "run_sim L cfg g1 = run_sim L cfg g2"
    by (rule run_sim_same_draws [OF same_draws_refl refl refl])
next
  assume "same_draws L L2 R \<and> R (seed_rng L (seed cfg)) (seed_rng L2 (seed cfg))
        \<and> np_seed_accepts L (seed cfg) = np_seed_accepts L2 (seed cfg)"
  then show "run_sim L cfg g1 = run_sim L2 cfg g3"
    by (intro run_sim_same_draws [of L L2 R]) simp_all
qed

text \<open>
  The witness: the two-day run started from two different states of the same
  generator, and run on two generators with different state spaces.
\<close>

theorem run_sim_deterministic_witness:
  "run_sim (script_lib [50, 99, 10, 1, 0, 0, 90, 20, 30, 70, 5]) two_day_config []
       = run_sim (script_lib [50, 99, 10, 1, 0, 0, 90, 20, 30, 70, 5]) two_day_config [8, 8, 8]
   \<and> same_draws (script_lib [50, 99, 10, 1, 0, 0, 90, 20, 30, 70, 5])
       (indexed_lib [50, 99, 10, 1, 0, 0, 90, 20, 30, 70, 5])
       (\<lambda>g i. g = drop i [50, 99, 10, 1, 0, 0, 90, 20, 30, 70, 5])
   \<and> seed_rng (script_lib [50, 99, 10, 1, 0, 0, 90, 20, 30, 70, 5]) (seed two_day_config)
       = drop (seed_rng (indexed_lib [50, 99, 10, 1, 0, 0, 90, 20, 30, 70, 5])
                 (seed two_day_config)) [50, 99, 10, 1, 0, 0, 90, 20, 30, 70, 5]
   \<and> run_sim (script_lib [50, 99, 10, 1, 0, 0, 90, 20, 30, 70, 5]) two_day_config []
       = run_sim (indexed_lib [50, 99, 10, 1, 0, 0, 90, 20, 30, 70, 5]) two_day_config 4
   \<and> run_sim (indexed_lib [50, 99, 10, 1, 0, 0, 90, 20, 30, 70, 5]) two_day_config 4 =
       Inr \<lparr>h_day = [0, 1], h_prey_count = [1, 1], h_pred_count = [0, 0],
            h_resource = [196 / 25, 87857 / 6250],
            h_prey_avg_eff = [249 / 250, 249 / 250], h_pred_avg_eff = [0, 0]\<rparr>"
proof -
  let ?s = "[50, 99, 10, 1, 0, 0, 90, 20, 30, 70, 5] :: nat list"
  have sd: "same_draws (script_lib ?s) (indexed_lib ?s) (\<lambda>g i. g = drop i ?s)"
    by (rule script_indexed_same_draws)
  have sr: "seed_rng (script_lib ?s) (seed two_day_config)
              = drop (seed_rng (indexed_lib ?s) (seed two_day_config)) ?s"
    by (simp add: script_lib_simps indexed_lib_simps)
  have ac: "np_seed_accepts (script_lib ?s) (seed two_day_config)
              = np_seed_accepts (indexed_lib ?s) (seed two_day_config)"
    by (simp add: script_lib_simps indexed_lib_simps)
  from run_sim_deterministic [of "script_lib ?s" two_day_config "[]" "[8, 8, 8]"
      "indexed_lib ?s" "\<lambda>g i. g = drop i ?s" 4] sd sr ac
  have a: "run_sim (script_lib ?s) two_day_config [] = run_sim (script_lib ?s) two_day_config [8, 8, 8]"
    and b: "run_sim (script_lib ?s) two_day_config [] = run_sim (indexed_lib ?s) two_day_config 4"
    by blast+
  from b two_day_run have c: "run_sim (indexed_lib ?s) two_day_config 4 =
       Inr \<lparr>h_day = [0, 1], h_prey_count = [1, 1], h_pred_count = [0, 0],
            h_resource = [196 / 25, 87857 / 6250],
            h_prey_avg_eff = [249 / 250, 249 / 250], h_pred_avg_eff = [0, 0]\<rparr>"
    by simp
  from a sd sr b c show ?thesis by blast
qed

section \<open>Shape of the history\<close>

text \<open>
  Claim C2. When \<open>run_sim\<close> returns for a configuration with \<open>days = d\<close>, the
  history has its six sequences, each of length \<open>d\<close>, and the sequence \<open>day\<close> is
  0, 1, ..., \<open>d - 1\<close>. (A length is a natural number: for a negative \<open>d\<close> the
  sequences are empty, as \<open>range(d)\<close> is.)
\<close>

theorem history_lengths:
  assumes "run_sim L cfg g = Inr h"
  shows "h_day h = [0..days cfg - 1]
       \<and> length (h_day h) = nat (days cfg)
       \<and> length (h_prey_count h) = nat (days cfg)
       \<and> length (h_pred_count h) = nat (days cfg)
       \<and> length (h_resource h) = nat (days cfg)
       \<and> length (h_prey_avg_eff h) = nat (days cfg)
       \<and> length (h_pred_avg_eff h) = nat (days cfg)"
proof -
  from assms obtain st where
    l: "day_loop L cfg [0..days cfg - 1] (init_state L cfg) = Inr st" and h: "h = history st"
    by (auto simp: run_sim_Inr)
  show ?thesis
    using day_loop_history [OF l]
    by (simp add: h history_init_state empty_history_def)
qed

theorem history_lengths_witness:
  "run_sim (script_lib [50, 99, 10, 1, 0, 0, 90, 20, 30, 70, 5]) two_day_config [] =
     Inr \<lparr>h_day = [0, 1], h_prey_count = [1, 1], h_pred_count = [0, 0],
          h_resource = [196 / 25, 87857 / 6250],
          h_prey_avg_eff = [249 / 250, 249 / 250], h_pred_avg_eff = [0, 0]\<rparr>
   \<and> days two_day_config = 2
   \<and> length [0, 1 :: int] = nat (days two_day_config)
   \<and> length [249 / 250, 249 / 250 :: real] = nat (days two_day_config)"
  using history_lengths [OF two_day_run] two_day_run
  by (simp add: two_day_config_def)

section \<open>Non-positive \<open>days\<close>\<close>

text \<open>
  Claim C10, as stated, fails: \<open>np.random.seed(seed)\<close> is called before the day
  loop whatever \<open>days\<close> is, and it raises \<open>ValueError\<close> for a seed outside
  0 .. 2^32 - 1. With \<open>days = 0\<close> and \<open>seed = -1\<close>, \<open>run_sim\<close> raises.
\<close>

theorem nonpositive_days_counterexample:
  "run_sim (script_lib []) (default_config\<lparr>days := 0, seed := - 1\<rparr>) [] = Inl ValueError"
  by (simp add: run_sim_def script_lib_simps default_config_def)

text \<open>
  Claim C10, amended. For a configuration with \<open>days \<le> 0\<close> whose seed
  \<open>np.random.seed\<close> accepts, \<open>run_sim\<close> returns normally and the history it
  returns has its six sequences empty: the day loop runs over an empty range and
  nothing checks \<open>days\<close>.
\<close>

theorem nonpositive_days_empty_history:
  assumes "np_seed_accepts L (seed cfg)" and "days cfg \<le> 0"
  shows "run_sim L cfg g = Inr empty_history"
  using assms by (simp add: run_sim_def history_init_state)

theorem nonpositive_days_empty_history_witness:
  "np_seed_accepts (script_lib [7, 3]) (seed (default_config\<lparr>days := 0\<rparr>))
   \<and> days (default_config\<lparr>days := 0\<rparr>) \<le> 0
   \<and> run_sim (script_lib [7, 3]) (default_config\<lparr>days := 0\<rparr>) [] = Inr empty_history
   \<and> days (default_config\<lparr>days := - 3\<rparr>) \<le> 0
   \<and> run_sim (script_lib [7, 3]) (default_config\<lparr>days := - 3\<rparr>) [] = Inr empty_history"
  using nonpositive_days_empty_history [of "script_lib [7, 3]" "default_config\<lparr>days := 0\<rparr>" "[]"]
    nonpositive_days_empty_history [of "script_lib [7, 3]" "default_config\<lparr>days := - 3\<rparr>" "[]"]
  by (simp add: script_lib_simps default_config_def)

section \<open>Recording and capping\<close>





section \<open>Configurations that are not rejected\<close>





section \<open>An empty prey population\<close>





section \<open>The resource pool\<close>




section \<open>Average efficiency\<close>






section \<open>Resource allocation\<close>




end
